theory Spec2Isabelle
  imports Main "HOL-Library.Multiset"
begin

section \<open>The climate-file merger (\<open>CLimate Data Clean.py\<close>)\<close>

text \<open>
  The script lists a fixed directory, keeps the names ending in \<open>.nc\<close>, groups them by
  the text before their first underscore, and for each group opens the files, collects
  one metadata entry per variable, concatenates the datasets along \<open>time\<close>, writes the
  result and prints a report. The script has no \<open>try\<close>: an exception raised by the
  library stops it.
\<close>

subsection \<open>Strings and paths\<close>

definition search_directory :: string where
  "search_directory = ''Base Climate Data''"

text \<open>\<open>s.endswith(suffix)\<close> and \<open>s.startswith(prefix)\<close> of Python.\<close>

definition endswith :: "string \<Rightarrow> string \<Rightarrow> bool" where
  "endswith s suffix =
     (length suffix \<le> length s \<and> drop (length s - length suffix) s = suffix)"

definition startswith :: "string \<Rightarrow> string \<Rightarrow> bool" where
  "startswith s p = (take (length p) s = p)"

text \<open>
  \<open>s.split(sep)\<close> for a separator of one character: the pieces between the separators,
  from left to right; \<open>cur\<close> is the piece being read. The result is never empty.
\<close>

fun split_from :: "char \<Rightarrow> string \<Rightarrow> string \<Rightarrow> string list" where
  "split_from sep cur [] = [cur]"
| "split_from sep cur (c # cs) =
     (if c = sep then cur # split_from sep [] cs else split_from sep (cur @ [c]) cs)"

definition split_str :: "string \<Rightarrow> char \<Rightarrow> string list" where
  "split_str s sep = split_from sep [] s"

text \<open>\<open>f.split("_")[0]\<close>: the index 0 is always in range, since the list is never empty.\<close>

definition prefix_of :: "string \<Rightarrow> string" where
  "prefix_of f = (case split_str f (CHR ''_'') of p # _ \<Rightarrow> p | [] \<Rightarrow> [])"

text \<open>
  \<open>os.path.join(a, b)\<close> and \<open>os.path.basename(p)\<close> on a POSIX system (the script's own
  output paths are written with \<open>/\<close>): an absolute second component replaces the first,
  otherwise one separator stands between the two.
\<close>

definition join :: "string \<Rightarrow> string \<Rightarrow> string" where
  "join a b =
     (if startswith b ''/'' then b
      else if a = [] \<or> endswith a ''/'' then a @ b
      else a @ ''/'' @ b)"

definition basename :: "string \<Rightarrow> string" where
  "basename p = rev (takeWhile (\<lambda>c. c \<noteq> CHR ''/'') (rev p))"

subsection \<open>Discovery and grouping\<close>

text \<open>\<open>all_files\<close>: the comprehension over \<open>os.listdir(search_directory)\<close>.\<close>

definition all_files :: "string list \<Rightarrow> string list" where
  "all_files listing = filter (\<lambda>f. endswith f ''.nc'') listing"

definition prefixes :: "string list \<Rightarrow> string set" where
  "prefixes fs = set (map prefix_of fs)"

text \<open>
  \<open>files_by_prefix\<close> is a \<open>defaultdict(list)\<close>: a dictionary that keeps its keys in the
  order of their first insertion, here an association list. \<open>d[k].append(v)\<close> appends to
  the list of an existing key and adds a missing key, with the list \<open>[v]\<close>, at the end.
\<close>

fun dict_append :: "'k \<Rightarrow> 'v \<Rightarrow> ('k \<times> 'v list) list \<Rightarrow> ('k \<times> 'v list) list" where
  "dict_append k v [] = [(k, [v])]"
| "dict_append k v ((k', vs) # d) =
     (if k' = k then (k', vs @ [v]) # d else (k', vs) # dict_append k v d)"

fun group_loop :: "(string \<times> string list) list \<Rightarrow> string list \<Rightarrow> (string \<times> string list) list" where
  "group_loop d [] = d"
| "group_loop d (f # fs) =
     group_loop (dict_append (prefix_of f) (join search_directory f) d) fs"

definition files_by_prefix :: "string list \<Rightarrow> (string \<times> string list) list" where
  "files_by_prefix fs = group_loop [] fs"

subsection \<open>The library and the outside world\<close>

text \<open>
  The datasets are values of xarray, opaque to the script, which only opens them, reads
  the names of their data variables and the attributes of each, concatenates them and
  writes one. These operations and \<open>os.listdir\<close> are parameters of the model; each either
  returns or raises (\<open>Inl\<close>, or \<open>Some\<close> for the write, carries the exception).
\<close>

record ('d, 'a, 'e) library =
  listdir :: "string \<Rightarrow> 'e + string list"
  open_dataset :: "string \<Rightarrow> 'e + 'd"
  data_vars :: "'d \<Rightarrow> string list"
  attrs :: "'d \<Rightarrow> string \<Rightarrow> 'a"
  concat_along :: "'d list \<Rightarrow> string \<Rightarrow> 'e + 'd"
  to_netcdf :: "'d \<Rightarrow> string \<Rightarrow> 'e option"

text \<open>An entry of \<open>data_names\<close>.\<close>

record 'a data_name =
  file_name :: string
  variable_name :: string
  attributes :: 'a

text \<open>
  What the run does to the outside, in order: the files it asks xarray to open, the
  files it has written, and the lines it has printed (a string, or the \<open>repr\<close> of an entry).
\<close>

datatype 'a line = Text string | Entry "'a data_name"

datatype ('d, 'a) event = Open string | Write string 'd | Print "'a line"

subsection \<open>Processing a group\<close>

text \<open>The inner loop over \<open>dataset.data_vars\<close>, appending to \<open>data_names\<close>.\<close>

fun var_loop :: "('d, 'a, 'e) library \<Rightarrow> string \<Rightarrow> 'd \<Rightarrow> 'a data_name list \<Rightarrow> string list
    \<Rightarrow> 'a data_name list" where
  "var_loop xr fp dataset data_names [] = data_names"
| "var_loop xr fp dataset data_names (var_name # vs) =
     var_loop xr fp dataset
       (data_names @ [\<lparr>file_name = basename fp, variable_name = var_name,
                       attributes = attrs xr dataset var_name\<rparr>]) vs"

text \<open>
  The loop over \<open>file_paths\<close>, with the lists \<open>datasets\<close> and \<open>data_names\<close> it appends to
  and the events so far. An open that raises ends the loop with the exception.
\<close>

fun file_loop :: "('d, 'a, 'e) library \<Rightarrow> 'd list \<times> 'a data_name list \<Rightarrow> ('d, 'a) event list
    \<Rightarrow> string list \<Rightarrow> ('e + 'd list \<times> 'a data_name list) \<times> ('d, 'a) event list" where
  "file_loop xr (datasets, data_names) tr [] = (Inr (datasets, data_names), tr)"
| "file_loop xr (datasets, data_names) tr (fp # fps) =
     (case open_dataset xr fp of
        Inl e \<Rightarrow> (Inl e, tr @ [Open fp])
      | Inr dataset \<Rightarrow>
          file_loop xr
            (datasets @ [dataset], var_loop xr fp dataset data_names (data_vars xr dataset))
            (tr @ [Open fp]) fps)"

definition output_path :: "string \<Rightarrow> 'a data_name list \<Rightarrow> string" where
  "output_path prefix data_names =
     (case data_names of
        entry # _ \<Rightarrow>
          ''src/data/Processed Climate Data/combined_'' @ prefix @ ''_''
            @ variable_name entry @ ''_data.nc''
      | [] \<Rightarrow>
          ''/src/data/Processed Climate Data/combined_'' @ prefix @ ''_climate_data.nc'')"

text \<open>The first printed line; \<open>print\<close> puts one space between its two arguments.\<close>

definition saved_line :: "string \<Rightarrow> string \<Rightarrow> string" where
  "saved_line prefix path =
     ''Combined dataset for prefix '' @ [CHR 0x27] @ prefix @ [CHR 0x27] @ '' saved to:''
       @ '' '' @ path"

text \<open>
  The body of the loop over the groups. The result is the exception that ended it, if
  any, and the events up to that point.
\<close>

definition process_group :: "('d, 'a, 'e) library \<Rightarrow> ('d, 'a) event list
    \<Rightarrow> string \<times> string list \<Rightarrow> 'e option \<times> ('d, 'a) event list" where
  "process_group xr tr g =
     (case g of (prefix, file_paths) \<Rightarrow>
      (case file_loop xr ([], []) tr file_paths of
         (Inl e, tr1) \<Rightarrow> (Some e, tr1)
       | (Inr (datasets, data_names), tr1) \<Rightarrow>
           (case concat_along xr datasets ''time'' of
              Inl e \<Rightarrow> (Some e, tr1)
            | Inr combined_data \<Rightarrow>
                (case to_netcdf xr combined_data (output_path prefix data_names) of
                   Some e \<Rightarrow> (Some e, tr1)
                 | None \<Rightarrow>
                     (None,
                      tr1 @ [Write (output_path prefix data_names) combined_data]
                        @ [Print (Text (saved_line prefix (output_path prefix data_names))),
                           Print (Text ''Extracted Metadata:'')]
                        @ map (\<lambda>entry. Print (Entry entry)) data_names)))))"

fun main_loop :: "('d, 'a, 'e) library \<Rightarrow> ('d, 'a) event list \<Rightarrow> (string \<times> string list) list
    \<Rightarrow> 'e option \<times> ('d, 'a) event list" where
  "main_loop xr tr [] = (None, tr)"
| "main_loop xr tr (g # gs) =
     (case process_group xr tr g of
        (Some e, tr') \<Rightarrow> (Some e, tr')
      | (None, tr') \<Rightarrow> main_loop xr tr' gs)"

text \<open>The whole script.\<close>

definition run :: "('d, 'a, 'e) library \<Rightarrow> 'e option \<times> ('d, 'a) event list" where
  "run xr =
     (case listdir xr search_directory of
        Inl e \<Rightarrow> (Some e, [])
      | Inr listing \<Rightarrow> main_loop xr [] (files_by_prefix (all_files listing)))"

subsection \<open>Notions used to state the properties\<close>

text \<open>The elements of a list in the order of their first occurrence.\<close>

fun firsts :: "'a list \<Rightarrow> 'a list" where
  "firsts [] = []"
| "firsts (x # xs) = x # removeAll x (firsts xs)"

text \<open>
  The metadata of one file, and of the files of a group with the datasets they opened
  to: file by file, and within a file variable by variable.
\<close>

definition entries :: "('d, 'a, 'e) library \<Rightarrow> string \<Rightarrow> 'd \<Rightarrow> 'a data_name list" where
  "entries xr fp dataset =
     map (\<lambda>v. \<lparr>file_name = basename fp, variable_name = v, attributes = attrs xr dataset v\<rparr>)
       (data_vars xr dataset)"

definition metadata :: "('d, 'a, 'e) library \<Rightarrow> string list \<Rightarrow> 'd list \<Rightarrow> 'a data_name list" where
  "metadata xr fps dss = concat (map2 (entries xr) fps dss)"

text \<open>
  A group goes through when its files open (to \<open>dss\<close>), their concatenation returns
  (\<open>combined\<close>) and the write returns. The events of such a group follow.
\<close>

definition group_ok :: "('d, 'a, 'e) library \<Rightarrow> string \<times> string list \<Rightarrow> 'd list \<times> 'd \<Rightarrow> bool" where
  "group_ok xr g out =
     (case (g, out) of ((prefix, fps), (dss, combined)) \<Rightarrow>
        map (open_dataset xr) fps = map Inr dss \<and>
        concat_along xr dss ''time'' = Inr combined \<and>
        to_netcdf xr combined (output_path prefix (metadata xr fps dss)) = None)"

definition group_events :: "('d, 'a, 'e) library \<Rightarrow> string \<times> string list \<Rightarrow> 'd list \<times> 'd
    \<Rightarrow> ('d, 'a) event list" where
  "group_events xr g out =
     (case (g, out) of ((prefix, fps), (dss, combined)) \<Rightarrow>
        map Open fps
        @ [Write (output_path prefix (metadata xr fps dss)) combined,
           Print (Text (saved_line prefix (output_path prefix (metadata xr fps dss)))),
           Print (Text ''Extracted Metadata:'')]
        @ map (\<lambda>entry. Print (Entry entry)) (metadata xr fps dss))"

text \<open>The paths a run asked to open, and the files it wrote, in order.\<close>

fun opened :: "('d, 'a) event list \<Rightarrow> string list" where
  "opened [] = []"
| "opened (Open fp # tr) = fp # opened tr"
| "opened (_ # tr) = opened tr"

fun written :: "('d, 'a) event list \<Rightarrow> (string \<times> 'd) list" where
  "written [] = []"
| "written (Write path d # tr) = (path, d) # written tr"
| "written (_ # tr) = written tr"

text \<open>
  The stem of a discovered file, its name without the extension \<open>.nc\<close>, and
  \<open>os.path.dirname\<close>, the directory part of a path.
\<close>

definition stem :: "string \<Rightarrow> string" where
  "stem f = take (length f - length ''.nc'') f"

definition dirname :: "string \<Rightarrow> string" where
  "dirname p =
     (let head = rev (dropWhile (\<lambda>c. c \<noteq> CHR ''/'') (rev p))
      in if filter (\<lambda>c. c \<noteq> CHR ''/'') head \<noteq> []
         then rev (dropWhile (\<lambda>c. c = CHR ''/'') (rev head)) else head)"

subsection \<open>Sample directories\<close>

text \<open>
  A dataset with the names of its data variables and its values along time. The first
  directory holds two years of temperatures, one of rain and a file that is not a dataset;
  the others differ from it in one operation that raises, or in the files' variables.
\<close>

type_synonym sample = "string list \<times> nat list"

definition scenario :: "(sample, string, string) library" where
  "scenario =
     \<lparr>listdir = (\<lambda>d. if d = ''Base Climate Data''
          then Inr [''tempA_2020.nc'', ''notes.txt'', ''rainB_2020.nc'', ''tempA_2021.nc'']
          else Inl ''FileNotFoundError''),
      open_dataset = (\<lambda>p.
          if p = ''Base Climate Data/tempA_2020.nc'' then Inr ([''temp''], [11, 12])
          else if p = ''Base Climate Data/tempA_2021.nc'' then Inr ([''temp''], [13])
          else if p = ''Base Climate Data/rainB_2020.nc'' then Inr ([''precip''], [7])
          else Inl ''FileNotFoundError''),
      data_vars = fst,
      attrs = (\<lambda>d v. if v = ''temp'' then ''K'' else ''mm''),
      concat_along = (\<lambda>dss dim.
          case dss of [] \<Rightarrow> Inl ''ValueError''
          | d # _ \<Rightarrow> Inr (fst d, concat (map snd dss))),
      to_netcdf = (\<lambda>d p. None)\<rparr>"

definition open_fails :: "(sample, string, string) library" where
  "open_fails = scenario\<lparr>open_dataset := (\<lambda>p.
     if p = ''Base Climate Data/rainB_2020.nc'' then Inl ''OSError''
     else open_dataset scenario p)\<rparr>"

definition concat_fails :: "(sample, string, string) library" where
  "concat_fails = scenario\<lparr>concat_along := (\<lambda>dss dim.
     if length dss = 1 then Inl ''ValueError'' else concat_along scenario dss dim)\<rparr>"

definition write_fails :: "(sample, string, string) library" where
  "write_fails = scenario\<lparr>to_netcdf := (\<lambda>d p.
     if p = ''src/data/Processed Climate Data/combined_rainB_precip_data.nc''
     then Some ''PermissionError'' else None)\<rparr>"


definition no_variables :: "(sample, string, string) library" where
  "no_variables = scenario\<lparr>
     listdir := (\<lambda>d. Inr [''x_1.nc'']),
     open_dataset := (\<lambda>p. Inr ([], [1]))\<rparr>"

definition two_variables :: "(sample, string, string) library" where
  "two_variables = scenario\<lparr>
     listdir := (\<lambda>d. Inr [''p_1.nc'', ''p_2.nc'']),
     open_dataset := (\<lambda>p.
       if p = ''Base Climate Data/p_1.nc'' then Inr ([''area'', ''temp''], [1])
       else Inr ([''temp''], [2]))\<rparr>"

section \<open>Properties\<close>

subsection \<open>Strings, discovery and grouping\<close>

lemma split_from_first:
  "(case split_from sep cur s of p # _ \<Rightarrow> p | [] \<Rightarrow> [])
     = cur @ takeWhile (\<lambda>c. c \<noteq> sep) s"
  by (induction s arbitrary: cur) auto

lemma prefix_of_takeWhile: "prefix_of f = takeWhile (\<lambda>c. c \<noteq> CHR ''_'') f"
  unfolding prefix_of_def split_str_def
  by (simp add: split_from_first)


lemma keys_dict_append:
  "map fst (dict_append k v d) = (if k \<in> set (map fst d) then map fst d else map fst d @ [k])"
  by (induction d) force+

lemma map_of_dict_append:
  "map_of (dict_append k v d) =
     (map_of d)(k \<mapsto> (case map_of d k of None \<Rightarrow> [v] | Some vs \<Rightarrow> vs @ [v]))"
  by (induction d) (auto simp: fun_eq_iff)

lemma set_firsts: "set (firsts xs) = set xs"
  by (induction xs) auto

lemma distinct_firsts: "distinct (firsts xs)"
  by (induction xs) (auto simp: distinct_removeAll)

lemma keys_group_loop:
  "map fst (group_loop d fs) =
     map fst d @ filter (\<lambda>k. k \<notin> set (map fst d)) (firsts (map prefix_of fs))"
proof (induction fs arbitrary: d)
  case Nil
  then show ?case by simp
next
  case (Cons f fs)
  show ?case
  proof (cases "prefix_of f \<in> set (map fst d)")
    case True
    then have "filter (\<lambda>k. k \<notin> set (map fst d)) (removeAll (prefix_of f) zs)
        = filter (\<lambda>k. k \<notin> set (map fst d)) zs" for zs
      by (induction zs) auto
    with True show ?thesis
      by (simp add: Cons.IH keys_dict_append)
  next
    case False
    have "filter (\<lambda>k. k \<noteq> prefix_of f \<and> k \<notin> set (map fst d)) zs
        = filter (\<lambda>k. k \<notin> set (map fst d)) (removeAll (prefix_of f) zs)" for zs
      by (induction zs) auto
    with False show ?thesis
      by (simp add: Cons.IH keys_dict_append)
  qed
qed

lemma map_of_group_loop:
  "map_of (group_loop d fs) k =
     (if k \<in> prefix_of ` set fs
      then Some ((case map_of d k of None \<Rightarrow> [] | Some vs \<Rightarrow> vs)
                  @ map (join search_directory) (filter (\<lambda>f. prefix_of f = k) fs))
      else map_of d k)"
proof (induction fs arbitrary: d)
  case Nil
  then show ?case by simp
next
  case (Cons f fs)
  show ?case
    by (auto simp: Cons.IH map_of_dict_append filter_empty_conv image_iff split: option.splits)
qed

lemma assoc_list_closed_form:
  "distinct (map fst d) \<Longrightarrow> map (\<lambda>k. (k, the (map_of d k))) (map fst d) = d"
proof (induction d)
  case Nil
  then show ?case by simp
next
  case (Cons kv d)
  obtain k v where kv: "kv = (k, v)" by (cases kv)
  from Cons.prems kv have notin: "k \<notin> set (map fst d)" and dist: "distinct (map fst d)"
    by auto
  have "map (\<lambda>k'. (k', the (map_of (kv # d) k'))) (map fst d)
      = map (\<lambda>k'. (k', the (map_of d k'))) (map fst d)"
    using notin kv by (intro map_cong) auto
  with Cons.IH [OF dist] kv show ?case by simp
qed

lemma files_by_prefix_closed_form:
  "files_by_prefix fs =
     map (\<lambda>k. (k, map (join search_directory) (filter (\<lambda>f. prefix_of f = k) fs)))
       (firsts (map prefix_of fs))"
proof -
  let ?d = "files_by_prefix fs"
  have keys: "map fst ?d = firsts (map prefix_of fs)"
    by (simp add: files_by_prefix_def keys_group_loop)
  then have "distinct (map fst ?d)"
    by (simp add: distinct_firsts)
  then have "?d = map (\<lambda>k. (k, the (map_of ?d k))) (map fst ?d)"
    by (rule assoc_list_closed_form [symmetric])
  also have "\<dots> = map (\<lambda>k. (k, map (join search_directory) (filter (\<lambda>f. prefix_of f = k) fs)))
       (firsts (map prefix_of fs))"
    unfolding keys
    by (intro map_cong) (auto simp: files_by_prefix_def map_of_group_loop set_firsts)
  finally show ?thesis .
qed

subsection \<open>The loops\<close>

lemma var_loop_eq: "var_loop xr fp d dns (data_vars xr d) = dns @ entries xr fp d"
proof -
  have "var_loop xr fp d dns vs = dns @ map (\<lambda>v. \<lparr>file_name = basename fp,
      variable_name = v, attributes = attrs xr d v\<rparr>) vs" for vs
    by (induction vs arbitrary: dns) auto
  then show ?thesis by (simp add: entries_def)
qed

lemma file_loop_all_open:
  "map (open_dataset xr) fps = map Inr dss \<Longrightarrow>
   file_loop xr (ds0, dn0) tr fps
     = (Inr (ds0 @ dss, dn0 @ metadata xr fps dss), tr @ map Open fps)"
proof (induction fps arbitrary: dss ds0 dn0 tr)
  case Nil
  then show ?case by (simp add: metadata_def)
next
  case (Cons fp fps)
  then obtain d dss' where dss: "dss = d # dss'" by (cases dss) auto
  with Cons.prems have o: "open_dataset xr fp = Inr d"
    and rest: "map (open_dataset xr) fps = map Inr dss'" by auto
  show ?case
    by (simp add: o dss Cons.IH [OF rest] var_loop_eq metadata_def)
qed

lemma file_loop_open_fails:
  "map (open_dataset xr) fs1 = map Inr ds1 \<Longrightarrow> open_dataset xr fp = Inl e \<Longrightarrow>
   file_loop xr (ds0, dn0) tr (fs1 @ fp # fs2) = (Inl e, tr @ map Open fs1 @ [Open fp])"
proof (induction fs1 arbitrary: ds1 ds0 dn0 tr)
  case Nil
  then show ?case by simp
next
  case (Cons f fs1)
  then obtain d ds1' where "ds1 = d # ds1'" by (cases ds1) auto
  with Cons.prems have o: "open_dataset xr f = Inr d"
    and rest: "map (open_dataset xr) fs1 = map Inr ds1'" by auto
  show ?case
    by (simp add: o Cons.IH [OF rest Cons.prems(2)])
qed

lemma main_loop_append:
  "main_loop xr tr (gs1 @ gs2) =
     (case main_loop xr tr gs1 of
        (Some e, tr') \<Rightarrow> (Some e, tr')
      | (None, tr') \<Rightarrow> main_loop xr tr' gs2)"
  by (induction gs1 arbitrary: tr) (auto split: prod.splits option.splits)

lemma process_group_ok:
  "group_ok xr g out \<Longrightarrow> process_group xr tr g = (None, tr @ group_events xr g out)"
  by (cases g; cases out)
    (simp add: group_ok_def group_events_def process_group_def file_loop_all_open)

lemma main_loop_all_ok:
  "list_all2 (group_ok xr) gs outs \<Longrightarrow>
   main_loop xr tr gs = (None, tr @ concat (map2 (group_events xr) gs outs))"
proof (induction gs outs arbitrary: tr rule: list_all2_induct)
  case Nil
  then show ?case by simp
next
  case (Cons g gs out outs)
  then show ?case by (simp add: process_group_ok)
qed

subsection \<open>Paths of the discovered files\<close>

lemma join_search_directory:
  "join search_directory f = (if startswith f ''/'' then f else ''Base Climate Data/'' @ f)"
  by (simp add: join_def search_directory_def endswith_def)

lemma join_inject: "join search_directory f = join search_directory g \<Longrightarrow> f = g"
  by (auto simp: join_search_directory startswith_def split: if_splits)

lemma prefix_of_longer:
  assumes "prefix_of g = f" and "g \<noteq> f"
  shows "startswith g (f @ ''_'')"
proof -
  let ?P = "\<lambda>c. c \<noteq> CHR ''_''"
  have g: "f @ dropWhile ?P g = g"
    using assms(1) takeWhile_dropWhile_id [of ?P g] by (simp add: prefix_of_takeWhile)
  have ne: "dropWhile ?P g \<noteq> []"
  proof
    assume "dropWhile ?P g = []"
    with g have "f = g" by simp
    with assms(2) show False by simp
  qed
  then have "hd (dropWhile ?P g) = CHR ''_''"
    using hd_dropWhile [of ?P g] by auto
  with ne obtain r where "dropWhile ?P g = CHR ''_'' # r"
    by (cases "dropWhile ?P g") auto
  with g have "g = (f @ ''_'') @ r" by simp
  then show ?thesis
    unfolding startswith_def by (metis append_eq_conv_conj)
qed

lemma prefix_of_no_underscore: "CHR ''_'' \<notin> set f \<Longrightarrow> prefix_of f = f"
  by (auto simp: prefix_of_takeWhile)

lemma filter_single:
  "distinct xs \<Longrightarrow> x \<in> set xs \<Longrightarrow> (\<And>y. y \<in> set xs \<Longrightarrow> P y \<longleftrightarrow> y = x) \<Longrightarrow> filter P xs = [x]"
proof (induction xs)
  case Nil
  then show ?case by simp
next
  case (Cons a xs)
  show ?case
  proof (cases "a = x")
    case True
    with Cons.prems have "filter P xs = []"
      by (auto simp: filter_empty_conv)
    with True Cons.prems(3) [of a] show ?thesis by simp
  next
    case False
    with Cons.prems have "filter P xs = [x]"
      by (intro Cons.IH) auto
    with False Cons.prems(3) [of a] show ?thesis by simp
  qed
qed

lemma map_of_files_by_prefix:
  "f \<in> set fs \<Longrightarrow>
   map_of (files_by_prefix fs) (prefix_of f)
     = Some (map (join search_directory) (filter (\<lambda>g. prefix_of g = prefix_of f) fs))"
  by (simp add: files_by_prefix_def map_of_group_loop)

section \<open>The claims\<close>

text \<open>
  C1 (as amended). For every discovered file the grouping prefix is the part of its name
  before the first underscore. A discovered file whose name has no underscore is keyed
  by its whole name, extension included (\<open>abc.nc\<close>, not the stem \<open>abc\<close>); its group holds
  the discovered files whose prefix is that name, and is the file alone when the listing
  has no name twice and no other discovered name starts with that name and an underscore.
\<close>

theorem prefix_before_first_underscore:
  assumes "f \<in> set (all_files listing)"
  shows "prefix_of f = takeWhile (\<lambda>c. c \<noteq> CHR ''_'') f \<and>
         (CHR ''_'' \<notin> set f \<longrightarrow>
            prefix_of f = f \<and>
            map_of (files_by_prefix (all_files listing)) f
              = Some (map (join search_directory)
                   (filter (\<lambda>g. prefix_of g = f) (all_files listing))) \<and>
            (distinct listing \<and>
             (\<forall>g \<in> set (all_files listing). g \<noteq> f \<longrightarrow> \<not> startswith g (f @ ''_''))
             \<longrightarrow> map_of (files_by_prefix (all_files listing)) f
                   = Some [join search_directory f]))"
proof (intro conjI impI)
  show "prefix_of f = takeWhile (\<lambda>c. c \<noteq> CHR ''_'') f"
    by (rule prefix_of_takeWhile)
next
  assume "CHR ''_'' \<notin> set f"
  then show "prefix_of f = f" by (rule prefix_of_no_underscore)
next
  assume "CHR ''_'' \<notin> set f"
  then have "prefix_of f = f" by (rule prefix_of_no_underscore)
  with map_of_files_by_prefix [OF assms]
  show "map_of (files_by_prefix (all_files listing)) f
      = Some (map (join search_directory) (filter (\<lambda>g. prefix_of g = f) (all_files listing)))"
    by simp
next
  assume nu: "CHR ''_'' \<notin> set f"
    and alone: "distinct listing \<and>
      (\<forall>g \<in> set (all_files listing). g \<noteq> f \<longrightarrow> \<not> startswith g (f @ ''_''))"
  from nu have pf: "prefix_of f = f" by (rule prefix_of_no_underscore)
  have "distinct (all_files listing)"
    using alone by (simp add: all_files_def)
  moreover have "prefix_of g = f \<longleftrightarrow> g = f" if "g \<in> set (all_files listing)" for g
    using that alone pf prefix_of_longer [of g f] by blast
  ultimately have "filter (\<lambda>g. prefix_of g = f) (all_files listing) = [f]"
    using assms by (intro filter_single)
  with map_of_files_by_prefix [OF assms] pf
  show "map_of (files_by_prefix (all_files listing)) f = Some [join search_directory f]"
    by simp
qed

theorem prefix_before_first_underscore_witness:
  "prefix_of ''notes.nc'' = ''notes.nc'' \<and>
   map_of (files_by_prefix (all_files [''tempA_2020.nc'', ''notes.nc'', ''readme.txt'']))
     ''notes.nc'' = Some [''Base Climate Data/notes.nc'']"
proof -
  have a: "''notes.nc'' \<in> set (all_files [''tempA_2020.nc'', ''notes.nc'', ''readme.txt''])"
    by (simp add: all_files_def endswith_def)
  have b: "CHR ''_'' \<notin> set ''notes.nc''" by simp
  have c: "distinct [''tempA_2020.nc'', ''notes.nc'', ''readme.txt''] \<and>
      (\<forall>g \<in> set (all_files [''tempA_2020.nc'', ''notes.nc'', ''readme.txt'']).
         g \<noteq> ''notes.nc'' \<longrightarrow> \<not> startswith g (''notes.nc'' @ ''_''))"
    by (simp add: all_files_def endswith_def startswith_def)
  from prefix_before_first_underscore [OF a] b c
  have "prefix_of ''notes.nc'' = ''notes.nc'' \<and>
    map_of (files_by_prefix (all_files [''tempA_2020.nc'', ''notes.nc'', ''readme.txt'']))
      ''notes.nc'' = Some [join search_directory ''notes.nc'']"
    by blast
  then show ?thesis
    by (simp only: join_search_directory startswith_def) simp
qed

text \<open>
  The claim as written fails: the file \<open>abc.nc\<close> has no underscore and its group is keyed
  \<open>abc.nc\<close>, while its stem is \<open>abc\<close>, under which there is no group; and with a second
  file \<open>abc.nc_x.nc\<close> in the directory the group of \<open>abc.nc\<close> holds both.
\<close>

theorem stem_key_counterexample:
  "''abc.nc'' \<in> set (all_files [''abc.nc'']) \<and> CHR ''_'' \<notin> set ''abc.nc'' \<and>
   stem ''abc.nc'' = ''abc'' \<and>
   files_by_prefix (all_files [''abc.nc'']) = [(''abc.nc'', [''Base Climate Data/abc.nc''])] \<and>
   map_of (files_by_prefix (all_files [''abc.nc''])) (stem ''abc.nc'') = None \<and>
   files_by_prefix (all_files [''abc.nc'', ''abc.nc_x.nc''])
     = [(''abc.nc'', [''Base Climate Data/abc.nc'', ''Base Climate Data/abc.nc_x.nc''])]"
  by (simp add: all_files_def endswith_def stem_def files_by_prefix_def prefix_of_takeWhile
      join_search_directory startswith_def)

lemma discovered_nonempty: "f \<in> set (all_files listing) \<Longrightarrow> f \<noteq> []"
  by (auto simp: all_files_def endswith_def)

lemma prefix_of_empty_iff: "f \<noteq> [] \<Longrightarrow> prefix_of f = [] \<longleftrightarrow> startswith f ''_''"
  by (cases f) (auto simp: prefix_of_takeWhile startswith_def)

text \<open>
  C9. A discovered file whose name begins with an underscore has the empty prefix, and
  the group keyed by the empty string holds all the discovered files that begin with an
  underscore, in the order of the listing, whatever the rest of their names.
\<close>

theorem leading_underscore_empty_prefix:
  assumes "f \<in> set (all_files listing)" and "startswith f ''_''"
  shows "prefix_of f = [] \<and>
         map_of (files_by_prefix (all_files listing)) []
           = Some (map (join search_directory)
                (filter (\<lambda>g. startswith g ''_'') (all_files listing))) \<and>
         join search_directory f
           \<in> set (map (join search_directory)
                (filter (\<lambda>g. startswith g ''_'') (all_files listing)))"
proof -
  have pf: "prefix_of f = []"
    using assms discovered_nonempty prefix_of_empty_iff by blast
  have "filter (\<lambda>g. prefix_of g = []) (all_files listing)
      = filter (\<lambda>g. startswith g ''_'') (all_files listing)"
    by (intro filter_cong refl) (simp add: discovered_nonempty prefix_of_empty_iff)
  with map_of_files_by_prefix [OF assms(1)] pf
  have "map_of (files_by_prefix (all_files listing)) []
      = Some (map (join search_directory)
          (filter (\<lambda>g. startswith g ''_'') (all_files listing)))"
    by simp
  with pf assms show ?thesis by simp
qed

theorem leading_underscore_empty_prefix_witness:
  "prefix_of ''_a.nc'' = [] \<and>
   map_of (files_by_prefix (all_files [''_a.nc'', ''t_1.nc'', ''_b_c.nc''])) []
     = Some [''Base Climate Data/_a.nc'', ''Base Climate Data/_b_c.nc'']"
proof -
  have a: "''_a.nc'' \<in> set (all_files [''_a.nc'', ''t_1.nc'', ''_b_c.nc''])"
    by (simp add: all_files_def endswith_def)
  have b: "startswith ''_a.nc'' ''_''"
    by (simp add: startswith_def)
  have "filter (\<lambda>g. startswith g ''_'') (all_files [''_a.nc'', ''t_1.nc'', ''_b_c.nc''])
      = [''_a.nc'', ''_b_c.nc'']"
    by (simp add: all_files_def endswith_def startswith_def)
  with leading_underscore_empty_prefix [OF a b] show ?thesis
    by (simp add: join_search_directory startswith_def)
qed

lemma mset_dict_append:
  "mset (concat (map snd (dict_append k v d))) = add_mset v (mset (concat (map snd d)))"
  by (induction d) auto

lemma mset_group_loop:
  "mset (concat (map snd (group_loop d fs)))
     = mset (concat (map snd d)) + mset (map (join search_directory) fs)"
  by (induction fs arbitrary: d) (auto simp: mset_dict_append)

lemma concat_files_by_prefix:
  "mset (concat (map snd (files_by_prefix fs))) = mset (map (join search_directory) fs)"
  by (simp add: files_by_prefix_def mset_group_loop)

lemma keys_files_by_prefix: "map fst (files_by_prefix fs) = firsts (map prefix_of fs)"
  by (simp add: files_by_prefix_def keys_group_loop)

lemma group_members:
  "(k, ps) \<in> set (files_by_prefix fs) \<Longrightarrow>
     ps = map (join search_directory) (filter (\<lambda>f. prefix_of f = k) fs) \<and> k \<in> prefix_of ` set fs"
  by (subst (asm) files_by_prefix_closed_form) (auto simp: set_firsts)

text \<open>
  C4. Grouping is a partition of the discovered files: the keys of the groups are
  pairwise distinct, every discovered file is in exactly one group, the one keyed by its
  prefix, and the groups together hold the discovered files, each as often as listed.
\<close>

theorem grouping_is_partition:
  "distinct (map fst (files_by_prefix (all_files listing))) \<and>
   (\<forall>f \<in> set (all_files listing).
      \<exists>!g. g \<in> set (files_by_prefix (all_files listing)) \<and>
           join search_directory f \<in> set (snd g)) \<and>
   (\<forall>f \<in> set (all_files listing).
      \<forall>g \<in> set (files_by_prefix (all_files listing)).
        join search_directory f \<in> set (snd g) \<longleftrightarrow> fst g = prefix_of f) \<and>
   mset (concat (map snd (files_by_prefix (all_files listing))))
     = mset (map (join search_directory) (all_files listing))"
proof (intro conjI ballI)
  let ?fs = "all_files listing"
  let ?G = "files_by_prefix ?fs"
  show dist: "distinct (map fst ?G)"
    by (simp add: keys_files_by_prefix distinct_firsts)
  show "mset (concat (map snd ?G)) = mset (map (join search_directory) ?fs)"
    by (rule concat_files_by_prefix)
  have member: "join search_directory f \<in> set (snd g) \<longleftrightarrow> fst g = prefix_of f"
    if f: "f \<in> set ?fs" and g: "g \<in> set ?G" for f g
  proof -
    obtain k ps where kp: "g = (k, ps)" by (cases g)
    with g have ps: "ps = map (join search_directory) (filter (\<lambda>f. prefix_of f = k) ?fs)"
      using group_members by blast
    show ?thesis
      using f by (auto simp: kp ps dest: join_inject)
  qed
  then show "join search_directory f \<in> set (snd g) \<longleftrightarrow> fst g = prefix_of f"
    if "f \<in> set ?fs" and "g \<in> set ?G" for f g
    using that by blast
  show "\<exists>!g. g \<in> set ?G \<and> join search_directory f \<in> set (snd g)" if f: "f \<in> set ?fs" for f
  proof -
    from map_of_files_by_prefix [OF f] obtain ps
      where ps: "map_of ?G (prefix_of f) = Some ps" by blast
    then have in_G: "(prefix_of f, ps) \<in> set ?G" by (rule map_of_SomeD)
    show ?thesis
    proof (rule ex1I [of _ "(prefix_of f, ps)"])
      show "(prefix_of f, ps) \<in> set ?G \<and> join search_directory f \<in> set (snd (prefix_of f, ps))"
        using in_G member [OF f in_G] by simp
    next
      fix g
      assume g: "g \<in> set ?G \<and> join search_directory f \<in> set (snd g)"
      then have "fst g = prefix_of f" using member [OF f] by blast
      with g in_G dist show "g = (prefix_of f, ps)"
        by (metis eq_key_imp_eq_value prod.collapse)
    qed
  qed
qed

theorem grouping_is_partition_witness:
  "distinct (map fst (files_by_prefix
     (all_files [''tempA_2020.nc'', ''notes.txt'', ''rainB_2020.nc'', ''tempA_2021.nc'']))) \<and>
   (\<exists>!g. g \<in> set (files_by_prefix
       (all_files [''tempA_2020.nc'', ''notes.txt'', ''rainB_2020.nc'', ''tempA_2021.nc''])) \<and>
     join search_directory ''tempA_2021.nc'' \<in> set (snd g)) \<and>
   files_by_prefix (all_files [''tempA_2020.nc'', ''notes.txt'', ''rainB_2020.nc'', ''tempA_2021.nc''])
     = [(''tempA'', [''Base Climate Data/tempA_2020.nc'', ''Base Climate Data/tempA_2021.nc'']),
        (''rainB'', [''Base Climate Data/rainB_2020.nc''])]"
proof -
  let ?l = "[''tempA_2020.nc'', ''notes.txt'', ''rainB_2020.nc'', ''tempA_2021.nc'']"
  have a: "''tempA_2021.nc'' \<in> set (all_files ?l)"
    by (simp add: all_files_def endswith_def)
  have "distinct (map fst (files_by_prefix (all_files ?l))) \<and>
    (\<exists>!g. g \<in> set (files_by_prefix (all_files ?l)) \<and>
      join search_directory ''tempA_2021.nc'' \<in> set (snd g))"
    using grouping_is_partition [of ?l] a by blast
  moreover have "files_by_prefix (all_files ?l)
     = [(''tempA'', [''Base Climate Data/tempA_2020.nc'', ''Base Climate Data/tempA_2021.nc'']),
        (''rainB'', [''Base Climate Data/rainB_2020.nc''])]"
    by (simp add: all_files_def endswith_def files_by_prefix_def prefix_of_takeWhile
        join_search_directory startswith_def)
  ultimately show ?thesis by blast
qed

subsection \<open>Files opened by a run\<close>

lemma opened_append: "opened (tr @ tr') = opened tr @ opened tr'"
  by (induction tr rule: opened.induct) auto

lemma opened_map_Open: "opened (map Open fps) = fps"
  by (induction fps) auto

lemma opened_map_Print: "opened (map (\<lambda>x. Print (h x)) xs) = []"
  by (induction xs) auto












subsection \<open>Metadata of a group\<close>

lemma length_metadata:
  "length fps = length dss \<Longrightarrow>
   length (metadata xr fps dss) = sum_list (map (\<lambda>d. length (data_vars xr d)) dss)"
  by (induction fps dss rule: list_induct2) (auto simp: metadata_def entries_def)

lemma basename_join:
  assumes "CHR ''/'' \<notin> set f"
  shows "basename (join search_directory f) = f"
proof -
  from assms have "\<not> startswith f ''/''"
    by (cases f) (auto simp: startswith_def)
  then have "join search_directory f = ''Base Climate Data'' @ CHR ''/'' # f"
    by (simp add: join_search_directory)
  moreover have "takeWhile (\<lambda>c. c \<noteq> CHR ''/'') (rev f @ CHR ''/'' # r) = rev f" for r
    using assms by (simp add: takeWhile_append)
  ultimately show ?thesis
    by (simp add: basename_def)
qed

text \<open>
  C5. For a group whose files all open, \<open>data_names\<close> after the loop over the files holds
  one record for every variable of every file: the files in the order of the group, the
  variables of a file in the order the dataset gives them, each record with the base name
  of the file (the name in the listing), the name of the variable and its attributes. So
  the number of records is the sum of the numbers of variables of the files.
\<close>

theorem metadata_per_variable:
  assumes "map (open_dataset xr) fps = map Inr dss"
  shows "file_loop xr ([], []) tr fps
           = (Inr (dss, concat (map2 (\<lambda>fp d. map (\<lambda>v. \<lparr>file_name = basename fp,
                  variable_name = v, attributes = attrs xr d v\<rparr>) (data_vars xr d)) fps dss)),
              tr @ map Open fps) \<and>
         length (concat (map2 (\<lambda>fp d. map (\<lambda>v. \<lparr>file_name = basename fp,
                  variable_name = v, attributes = attrs xr d v\<rparr>) (data_vars xr d)) fps dss))
           = sum_list (map (\<lambda>d. length (data_vars xr d)) dss) \<and>
         (\<forall>f. CHR ''/'' \<notin> set f \<longrightarrow> basename (join search_directory f) = f)"
proof -
  have len: "length fps = length dss"
    using assms by (metis length_map)
  have m: "metadata xr fps dss = concat (map2 (\<lambda>fp d. map (\<lambda>v. \<lparr>file_name = basename fp,
      variable_name = v, attributes = attrs xr d v\<rparr>) (data_vars xr d)) fps dss)"
    by (simp add: metadata_def entries_def)
  from file_loop_all_open [OF assms, of "[]" "[]" tr] length_metadata [OF len, of xr]
  show ?thesis
    unfolding m by (simp add: basename_join)
qed

theorem metadata_per_variable_witness:
  "fst (file_loop two_variables ([], []) []
     [''Base Climate Data/p_1.nc'', ''Base Climate Data/p_2.nc''])
   = Inr ([([''area'', ''temp''], [1]), ([''temp''], [2])],
       [\<lparr>file_name = ''p_1.nc'', variable_name = ''area'', attributes = ''mm''\<rparr>,
        \<lparr>file_name = ''p_1.nc'', variable_name = ''temp'', attributes = ''K''\<rparr>,
        \<lparr>file_name = ''p_2.nc'', variable_name = ''temp'', attributes = ''K''\<rparr>])"
proof -
  let ?fps = "[''Base Climate Data/p_1.nc'', ''Base Climate Data/p_2.nc'']"
  let ?dss = "[([''area'', ''temp''], [1::nat]), ([''temp''], [2])]"
  have a: "map (open_dataset two_variables) ?fps = map Inr ?dss"
    by (simp add: two_variables_def scenario_def)
  from metadata_per_variable [OF a, of "[]"]
  have "fst (file_loop two_variables ([], []) [] ?fps)
      = Inr (?dss, concat (map2 (\<lambda>fp d. map (\<lambda>v. \<lparr>file_name = basename fp,
          variable_name = v, attributes = attrs two_variables d v\<rparr>)
            (data_vars two_variables d)) ?fps ?dss))"
    by simp
  then show ?thesis
    by (simp add: two_variables_def scenario_def basename_def)
qed

subsection \<open>The output path\<close>

lemma metadata_first:
  "data_vars xr a = v # vs \<Longrightarrow>
   \<exists>rest. metadata xr (A # fps) (a # dss)
     = \<lparr>file_name = basename A, variable_name = v, attributes = attrs xr a v\<rparr> # rest"
  by (simp add: metadata_def entries_def)

text \<open>
  C3 (as amended). For a group whose files open and yield at least one metadata entry,
  the output path depends on the prefix and the first recorded variable name only: it is
  \<open>combined_<prefix>_<first variable>_data.nc\<close> in \<open>src/data/Processed Climate Data\<close>,
  and this is the path the group is written to. In particular, for a group of two files
  \<open>[A, B]\<close> where \<open>temp\<close> is the first variable of \<open>A\<close>, the file is
  \<open>combined_<prefix>_temp_data.nc\<close>.
\<close>

theorem output_path_from_first_variable:
  assumes "map (open_dataset xr) fps = map Inr dss"
    and "metadata xr fps dss = entry # rest"
  shows "process_group xr tr (prefix, fps)
           = (case concat_along xr dss ''time'' of
                Inl e \<Rightarrow> (Some e, tr @ map Open fps)
              | Inr combined \<Rightarrow>
                 (case to_netcdf xr combined
                    (''src/data/Processed Climate Data/'' @ ''combined_'' @ prefix @ ''_''
                       @ variable_name entry @ ''_data.nc'') of
                    Some e \<Rightarrow> (Some e, tr @ map Open fps)
                  | None \<Rightarrow> (None, tr @ group_events xr (prefix, fps) (dss, combined)))) \<and>
         output_path prefix (metadata xr fps dss)
           = ''src/data/Processed Climate Data/'' @ ''combined_'' @ prefix @ ''_''
               @ variable_name entry @ ''_data.nc'' \<and>
         (\<forall>A B a b vs. fps = [A, B] \<and> dss = [a, b] \<and> data_vars xr a = ''temp'' # vs \<longrightarrow>
            output_path prefix (metadata xr fps dss)
              = ''src/data/Processed Climate Data/'' @ ''combined_'' @ prefix @ ''_temp_data.nc'')"
proof (intro conjI allI impI)
  show op: "output_path prefix (metadata xr fps dss)
      = ''src/data/Processed Climate Data/'' @ ''combined_'' @ prefix @ ''_''
          @ variable_name entry @ ''_data.nc''"
    by (simp add: assms(2) output_path_def)
  show "process_group xr tr (prefix, fps)
      = (case concat_along xr dss ''time'' of
           Inl e \<Rightarrow> (Some e, tr @ map Open fps)
         | Inr combined \<Rightarrow>
            (case to_netcdf xr combined
               (''src/data/Processed Climate Data/'' @ ''combined_'' @ prefix @ ''_''
                  @ variable_name entry @ ''_data.nc'') of
               Some e \<Rightarrow> (Some e, tr @ map Open fps)
             | None \<Rightarrow> (None, tr @ group_events xr (prefix, fps) (dss, combined))))"
    unfolding op [symmetric]
    by (simp add: process_group_def file_loop_all_open [OF assms(1)] group_events_def
        split: sum.splits option.splits)
next
  fix A B a b vs
  assume h: "fps = [A, B] \<and> dss = [a, b] \<and> data_vars xr a = ''temp'' # vs"
  then obtain rest' where "metadata xr fps dss
      = \<lparr>file_name = basename A, variable_name = ''temp'', attributes = attrs xr a ''temp''\<rparr> # rest'"
    using metadata_first [of xr a "''temp''" vs A "[B]" "[b]"] by auto
  then show "output_path prefix (metadata xr fps dss)
      = ''src/data/Processed Climate Data/'' @ ''combined_'' @ prefix @ ''_temp_data.nc''"
    by (simp add: output_path_def)
qed


theorem output_path_from_first_variable_witness:
  "output_path ''tempA'' (metadata scenario
      [''Base Climate Data/tempA_2020.nc'', ''Base Climate Data/tempA_2021.nc'']
      [([''temp''], [11, 12]), ([''temp''], [13])])
   = ''src/data/Processed Climate Data/combined_tempA_temp_data.nc''"
proof -
  let ?A = "''Base Climate Data/tempA_2020.nc''" and ?B = "''Base Climate Data/tempA_2021.nc''"
  let ?a = "([''temp''], [11::nat, 12])" and ?b = "([''temp''], [13::nat])"
  have opens: "map (open_dataset scenario) [?A, ?B] = map Inr [?a, ?b]"
    by (simp add: scenario_def)
  have first: "metadata scenario [?A, ?B] [?a, ?b]
      = \<lparr>file_name = ''tempA_2020.nc'', variable_name = ''temp'', attributes = ''K''\<rparr>
        # [\<lparr>file_name = ''tempA_2021.nc'', variable_name = ''temp'', attributes = ''K''\<rparr>]"
    by (simp add: metadata_def entries_def scenario_def basename_def)
  have ab: "[?A, ?B] = [?A, ?B] \<and> [?a, ?b] = [?a, ?b] \<and> data_vars scenario ?a = ''temp'' # []"
    by (simp add: scenario_def)
  note t = output_path_from_first_variable [OF opens first, of "[]" "''tempA''"]
  from t [THEN conjunct2, THEN conjunct2, rule_format, OF ab]
  show ?thesis by simp
qed

text \<open>
  The particular case fails as written: both files of the group \<open>p\<close> contain the variable
  \<open>temp\<close>, but the first file has the variable \<open>area\<close> before it, and the output is
  \<open>combined_p_area_data.nc\<close>.
\<close>

theorem temp_not_first_counterexample:
  "files_by_prefix (all_files [''p_1.nc'', ''p_2.nc''])
     = [(''p'', [''Base Climate Data/p_1.nc'', ''Base Climate Data/p_2.nc''])] \<and>
   open_dataset two_variables ''Base Climate Data/p_1.nc'' = Inr ([''area'', ''temp''], [1]) \<and>
   open_dataset two_variables ''Base Climate Data/p_2.nc'' = Inr ([''temp''], [2]) \<and>
   ''temp'' \<in> set (data_vars two_variables ([''area'', ''temp''], [1])) \<and>
   ''temp'' \<in> set (data_vars two_variables ([''temp''], [2])) \<and>
   fst (run two_variables) = None \<and>
   written (snd (run two_variables))
     = [(''src/data/Processed Climate Data/combined_p_area_data.nc'',
         ([''area'', ''temp''], [1, 2]))] \<and>
   ''src/data/Processed Climate Data/combined_p_area_data.nc''
     \<noteq> ''src/data/Processed Climate Data/combined_p_temp_data.nc''"
proof -
  have g: "files_by_prefix (all_files [''p_1.nc'', ''p_2.nc''])
     = [(''p'', [''Base Climate Data/p_1.nc'', ''Base Climate Data/p_2.nc''])]"
    by (simp add: all_files_def endswith_def files_by_prefix_def prefix_of_takeWhile
        join_search_directory startswith_def)
  have r: "run two_variables
     = (None, group_events two_variables
         (''p'', [''Base Climate Data/p_1.nc'', ''Base Climate Data/p_2.nc''])
         ([([''area'', ''temp''], [1]), ([''temp''], [2])], ([''area'', ''temp''], [1, 2])))"
  proof -
    have "group_ok two_variables
         (''p'', [''Base Climate Data/p_1.nc'', ''Base Climate Data/p_2.nc''])
         ([([''area'', ''temp''], [1]), ([''temp''], [2])], ([''area'', ''temp''], [1, 2]))"
      by (simp add: group_ok_def two_variables_def scenario_def)
    then show ?thesis
      by (simp add: run_def two_variables_def scenario_def g
          process_group_ok)
  qed
  show ?thesis
    unfolding r g
    by (simp add: group_events_def metadata_def entries_def output_path_def
        two_variables_def scenario_def)
qed

text \<open>
  C2. For a group whose files have no variables the output file is named
  \<open>combined_<prefix>_climate_data.nc\<close>, but the two branches do not name the same
  directory: the fallback path starts with a separator the primary path does not have.
  The run below has one file \<open>x_1.nc\<close> without variables and writes to
  \<open>/src/data/Processed Climate Data\<close>, where a group with a variable is written to
  \<open>src/data/Processed Climate Data\<close>.
\<close>

theorem fallback_path_leading_separator:
  "files_by_prefix (all_files [''x_1.nc'']) = [(''x'', [''Base Climate Data/x_1.nc''])] \<and>
   data_vars no_variables ([], [1]) = [] \<and>
   fst (run no_variables) = None \<and>
   written (snd (run no_variables))
     = [(''/src/data/Processed Climate Data/combined_x_climate_data.nc'', ([], [1]))] \<and>
   basename (output_path ''x'' ([] :: string data_name list)) = ''combined_x_climate_data.nc'' \<and>
   dirname (output_path ''x'' ([] :: string data_name list))
     = ''/src/data/Processed Climate Data'' \<and>
   dirname (output_path ''x''
       [\<lparr>file_name = ''x_1.nc'', variable_name = ''temp'', attributes = ''K''\<rparr>])
     = ''src/data/Processed Climate Data''"
proof -
  have g: "files_by_prefix (all_files [''x_1.nc'']) = [(''x'', [''Base Climate Data/x_1.nc''])]"
    by (simp add: all_files_def endswith_def files_by_prefix_def prefix_of_takeWhile
        join_search_directory startswith_def)
  have r: "run no_variables
     = (None, group_events no_variables (''x'', [''Base Climate Data/x_1.nc''])
         ([([], [1])], ([], [1])))"
  proof -
    have "group_ok no_variables (''x'', [''Base Climate Data/x_1.nc'']) ([([], [1])], ([], [1]))"
      by (simp add: group_ok_def no_variables_def scenario_def)
    then show ?thesis
      by (simp add: run_def no_variables_def scenario_def g process_group_ok)
  qed
  have d: "dirname (output_path ''x'' ([] :: string data_name list))
     = ''/src/data/Processed Climate Data''"
    by (simp add: output_path_def dirname_def)
  have d': "dirname (output_path ''x''
       [\<lparr>file_name = ''x_1.nc'', variable_name = ''temp'', attributes = ''K''\<rparr>])
     = ''src/data/Processed Climate Data''"
    by (simp add: output_path_def dirname_def)
  have b: "basename (output_path ''x'' ([] :: string data_name list))
     = ''combined_x_climate_data.nc''"
    by (simp add: output_path_def basename_def)
  show ?thesis
    unfolding r g d d' b
    by (simp add: group_events_def metadata_def entries_def output_path_def
        no_variables_def scenario_def)
qed

subsection \<open>Runs that go through and runs that stop\<close>

lemma process_group_open_fails:
  "map (open_dataset xr) fs1 = map Inr ds1 \<Longrightarrow> open_dataset xr fp = Inl e \<Longrightarrow>
   process_group xr tr (prefix, fs1 @ fp # fs2) = (Some e, tr @ map Open fs1 @ [Open fp])"
  by (simp add: process_group_def file_loop_open_fails)

lemma process_group_concat_fails:
  "map (open_dataset xr) fps = map Inr dss \<Longrightarrow> concat_along xr dss ''time'' = Inl e \<Longrightarrow>
   process_group xr tr (prefix, fps) = (Some e, tr @ map Open fps)"
  by (simp add: process_group_def file_loop_all_open)

lemma process_group_write_fails:
  "map (open_dataset xr) fps = map Inr dss \<Longrightarrow> concat_along xr dss ''time'' = Inr c \<Longrightarrow>
   to_netcdf xr c (output_path prefix (metadata xr fps dss)) = Some e \<Longrightarrow>
   process_group xr tr (prefix, fps) = (Some e, tr @ map Open fps)"
  by (simp add: process_group_def file_loop_all_open)

lemma main_loop_stops:
  "list_all2 (group_ok xr) gs1 outs1 \<Longrightarrow>
   process_group xr (tr @ concat (map2 (group_events xr) gs1 outs1)) g = (Some e, tr') \<Longrightarrow>
   main_loop xr tr (gs1 @ g # gs2) = (Some e, tr')"
  by (simp add: main_loop_append main_loop_all_ok)

lemma written_append: "written (tr @ tr') = written tr @ written tr'"
  by (induction tr rule: written.induct) auto

lemma written_map_Open: "written (map Open fs) = []"
  by (induction fs) auto

lemma written_map_Print: "written (map (\<lambda>x. Print (h x)) xs) = []"
  by (induction xs) auto

lemma written_group_events:
  "written (group_events xr (p, fs) (dss, combined))
     = [(output_path p (metadata xr fs dss), combined)]"
  by (simp add: group_events_def written_append written_map_Open written_map_Print)

lemma written_groups:
  "written (concat (map2 (group_events xr) gs outs))
     = map2 (\<lambda>(p, fs) (dss, combined). (output_path p (metadata xr fs dss), combined)) gs outs"
proof (induction gs arbitrary: outs)
  case Nil
  then show ?case by simp
next
  case (Cons g gs)
  then show ?case
    by (cases outs; cases g) (auto simp: written_append written_group_events)
qed

lemma sample_groups:
  "files_by_prefix
     (all_files [''tempA_2020.nc'', ''notes.txt'', ''rainB_2020.nc'', ''tempA_2021.nc''])
   = [(''tempA'', [''Base Climate Data/tempA_2020.nc'', ''Base Climate Data/tempA_2021.nc'']),
      (''rainB'', [''Base Climate Data/rainB_2020.nc''])]"
  by (simp add: all_files_def endswith_def files_by_prefix_def prefix_of_takeWhile
      join_search_directory startswith_def)

text \<open>
  C10. The groups are processed in the order in which their prefixes first occur among
  the discovered files, the order of insertion into \<open>files_by_prefix\<close>. When every group
  goes through, the run ends without an exception and its events are those of the groups
  one after the other: for each group its files are opened, then the output file is
  written, then the two heading lines and the metadata entries are printed.
\<close>

theorem groups_in_first_occurrence_order:
  assumes "listdir xr search_directory = Inr listing"
    and "list_all2 (group_ok xr) (files_by_prefix (all_files listing)) outs"
  shows "map fst (files_by_prefix (all_files listing))
           = firsts (map prefix_of (all_files listing)) \<and>
         run xr = (None, concat (map2
           (\<lambda>(prefix, fps) (dss, combined).
              map Open fps
              @ Write (output_path prefix (metadata xr fps dss)) combined
              # Print (Text (saved_line prefix (output_path prefix (metadata xr fps dss))))
              # Print (Text ''Extracted Metadata:'')
              # map (\<lambda>entry. Print (Entry entry)) (metadata xr fps dss))
           (files_by_prefix (all_files listing)) outs))"
proof -
  have "group_events xr = (\<lambda>(prefix, fps) (dss, combined).
              map Open fps
              @ Write (output_path prefix (metadata xr fps dss)) combined
              # Print (Text (saved_line prefix (output_path prefix (metadata xr fps dss))))
              # Print (Text ''Extracted Metadata:'')
              # map (\<lambda>entry. Print (Entry entry)) (metadata xr fps dss))"
    by (simp add: fun_eq_iff group_events_def)
  with main_loop_all_ok [OF assms(2), of "[]"] assms(1) show ?thesis
    by (simp add: run_def keys_files_by_prefix)
qed

theorem groups_in_first_occurrence_order_witness:
  "map fst (files_by_prefix
     (all_files [''tempA_2020.nc'', ''notes.txt'', ''rainB_2020.nc'', ''tempA_2021.nc'']))
     = [''tempA'', ''rainB''] \<and>
   run scenario = (None,
     [Open ''Base Climate Data/tempA_2020.nc'',
      Open ''Base Climate Data/tempA_2021.nc'',
      Write ''src/data/Processed Climate Data/combined_tempA_temp_data.nc''
        ([''temp''], [11, 12, 13]),
      Print (Text (saved_line ''tempA''
        ''src/data/Processed Climate Data/combined_tempA_temp_data.nc'')),
      Print (Text ''Extracted Metadata:''),
      Print (Entry \<lparr>file_name = ''tempA_2020.nc'', variable_name = ''temp'', attributes = ''K''\<rparr>),
      Print (Entry \<lparr>file_name = ''tempA_2021.nc'', variable_name = ''temp'', attributes = ''K''\<rparr>),
      Open ''Base Climate Data/rainB_2020.nc'',
      Write ''src/data/Processed Climate Data/combined_rainB_precip_data.nc'' ([''precip''], [7]),
      Print (Text (saved_line ''rainB''
        ''src/data/Processed Climate Data/combined_rainB_precip_data.nc'')),
      Print (Text ''Extracted Metadata:''),
      Print (Entry \<lparr>file_name = ''rainB_2020.nc'', variable_name = ''precip'',
        attributes = ''mm''\<rparr>)])"
proof -
  let ?l = "[''tempA_2020.nc'', ''notes.txt'', ''rainB_2020.nc'', ''tempA_2021.nc'']"
  let ?outs = "[([([''temp''], [11::nat, 12]), ([''temp''], [13])], ([''temp''], [11::nat, 12, 13])),
                ([([''precip''], [7])], ([''precip''], [7]))]"
  have a: "listdir scenario search_directory = Inr ?l"
    by (simp add: scenario_def search_directory_def)
  have ok: "list_all2 (group_ok scenario) (files_by_prefix (all_files ?l)) ?outs"
    unfolding sample_groups
    by (simp add: group_ok_def scenario_def)
  from groups_in_first_occurrence_order [OF a ok] show ?thesis
    unfolding sample_groups
    by (simp add: metadata_def entries_def output_path_def scenario_def basename_def)
qed

text \<open>
  C8. No exception is handled. Let the groups before one group all go through. If, in
  that group, a file fails to open (those before it having opened), or the concatenation
  fails, or the write fails, then the run ends with that very exception: the failing
  operation has been tried once, nothing of the group is written or printed, no later
  file or group is touched, and the files written for the earlier groups are all there.
\<close>

theorem failure_aborts_run:
  assumes "listdir xr search_directory = Inr listing"
    and "files_by_prefix (all_files listing) = gs1 @ (prefix, fps) # gs2"
    and "list_all2 (group_ok xr) gs1 outs1"
  shows "(\<forall>fs1 fp fs2 ds1 e.
            fps = fs1 @ fp # fs2 \<and> map (open_dataset xr) fs1 = map Inr ds1 \<and>
            open_dataset xr fp = Inl e \<longrightarrow>
            run xr = (Some e, concat (map2 (group_events xr) gs1 outs1)
                                @ map Open fs1 @ [Open fp])) \<and>
         (\<forall>dss e.
            map (open_dataset xr) fps = map Inr dss \<and> concat_along xr dss ''time'' = Inl e \<longrightarrow>
            run xr = (Some e, concat (map2 (group_events xr) gs1 outs1) @ map Open fps)) \<and>
         (\<forall>dss combined e.
            map (open_dataset xr) fps = map Inr dss \<and>
            concat_along xr dss ''time'' = Inr combined \<and>
            to_netcdf xr combined (output_path prefix (metadata xr fps dss)) = Some e \<longrightarrow>
            run xr = (Some e, concat (map2 (group_events xr) gs1 outs1) @ map Open fps)) \<and>
         written (concat (map2 (group_events xr) gs1 outs1) @ map Open fps)
           = map2 (\<lambda>(p, fs) (dss, combined). (output_path p (metadata xr fs dss), combined))
               gs1 outs1"
proof -
  let ?T = "concat (map2 (group_events xr) gs1 outs1)"
  have run: "run xr = main_loop xr [] (gs1 @ (prefix, fps) # gs2)"
    using assms(1,2) by (simp add: run_def)
  have stop: "run xr = (Some e, tr')" if "process_group xr ?T (prefix, fps) = (Some e, tr')"
    for e tr'
    using main_loop_stops [OF assms(3), of "[]" "(prefix, fps)" e tr' gs2] that run by simp
  show ?thesis
  proof (intro conjI allI impI)
    fix fs1 fp fs2 ds1 e
    assume "fps = fs1 @ fp # fs2 \<and> map (open_dataset xr) fs1 = map Inr ds1 \<and>
      open_dataset xr fp = Inl e"
    then show "run xr = (Some e, ?T @ map Open fs1 @ [Open fp])"
      by (intro stop) (simp add: process_group_open_fails)
  next
    fix dss e
    assume "map (open_dataset xr) fps = map Inr dss \<and> concat_along xr dss ''time'' = Inl e"
    then show "run xr = (Some e, ?T @ map Open fps)"
      by (intro stop) (simp add: process_group_concat_fails)
  next
    fix dss combined e
    assume "map (open_dataset xr) fps = map Inr dss \<and>
      concat_along xr dss ''time'' = Inr combined \<and>
      to_netcdf xr combined (output_path prefix (metadata xr fps dss)) = Some e"
    then show "run xr = (Some e, ?T @ map Open fps)"
      by (intro stop) (simp add: process_group_write_fails)
  next
    show "written (?T @ map Open fps)
      = map2 (\<lambda>(p, fs) (dss, combined). (output_path p (metadata xr fs dss), combined))
          gs1 outs1"
      by (simp add: written_append written_map_Open written_groups)
  qed
qed

theorem failure_aborts_run_witness:
  "fst (run open_fails) = Some ''OSError'' \<and>
   opened (snd (run open_fails))
     = [''Base Climate Data/tempA_2020.nc'', ''Base Climate Data/tempA_2021.nc'',
        ''Base Climate Data/rainB_2020.nc''] \<and>
   written (snd (run open_fails))
     = [(''src/data/Processed Climate Data/combined_tempA_temp_data.nc'',
         ([''temp''], [11, 12, 13]))] \<and>
   fst (run concat_fails) = Some ''ValueError'' \<and>
   written (snd (run concat_fails))
     = [(''src/data/Processed Climate Data/combined_tempA_temp_data.nc'',
         ([''temp''], [11, 12, 13]))] \<and>
   fst (run write_fails) = Some ''PermissionError'' \<and>
   written (snd (run write_fails))
     = [(''src/data/Processed Climate Data/combined_tempA_temp_data.nc'',
         ([''temp''], [11, 12, 13]))]"
proof -
  let ?l = "[''tempA_2020.nc'', ''notes.txt'', ''rainB_2020.nc'', ''tempA_2021.nc'']"
  let ?g1 = "(''tempA'', [''Base Climate Data/tempA_2020.nc'', ''Base Climate Data/tempA_2021.nc''])"
  let ?out1 = "([([''temp''], [11::nat, 12]), ([''temp''], [13])], ([''temp''], [11::nat, 12, 13]))"
  let ?rain = "''Base Climate Data/rainB_2020.nc''"
  have split: "files_by_prefix (all_files ?l) = [?g1] @ (''rainB'', [?rain]) # []"
    by (simp add: sample_groups)
  have w: "written (group_events xr ?g1 ?out1 @ tr)
      = (output_path ''tempA'' (metadata xr (snd ?g1) (fst ?out1)), snd ?out1) # written tr"
    for xr :: "(sample, string, string) library" and tr
    by (simp add: written_append written_group_events)
  have o: "opened (group_events xr ?g1 ?out1 @ tr) = snd ?g1 @ opened tr"
    for xr :: "(sample, string, string) library" and tr
    by (simp add: opened_append group_events_def opened_map_Print opened_map_Open)

  have a1: "listdir open_fails search_directory = Inr ?l"
    by (simp add: open_fails_def scenario_def search_directory_def)
  have c1: "list_all2 (group_ok open_fails) [?g1] [?out1]"
    by (simp add: group_ok_def open_fails_def scenario_def)
  have h1: "[?rain] = [] @ ?rain # [] \<and> map (open_dataset open_fails) [] = map Inr [] \<and>
      open_dataset open_fails ?rain = Inl ''OSError''"
    by (simp add: open_fails_def)
  note t1 = failure_aborts_run [OF a1 split c1]
  have r1: "run open_fails = (Some ''OSError'',
      concat (map2 (group_events open_fails) [?g1] [?out1]) @ map Open [] @ [Open ?rain])"
    by (rule t1 [THEN conjunct1, rule_format, OF h1])

  have a2: "listdir concat_fails search_directory = Inr ?l"
    by (simp add: concat_fails_def scenario_def search_directory_def)
  have c2: "list_all2 (group_ok concat_fails) [?g1] [?out1]"
    by (simp add: group_ok_def concat_fails_def scenario_def)
  have h2: "map (open_dataset concat_fails) [?rain] = map Inr [([''precip''], [7])] \<and>
      concat_along concat_fails [([''precip''], [7])] ''time'' = Inl ''ValueError''"
    by (simp add: concat_fails_def scenario_def)
  note t2 = failure_aborts_run [OF a2 split c2]
  have r2: "run concat_fails = (Some ''ValueError'',
      concat (map2 (group_events concat_fails) [?g1] [?out1]) @ map Open [?rain])"
    by (rule t2 [THEN conjunct2, THEN conjunct1, rule_format, OF h2])

  have a3: "listdir write_fails search_directory = Inr ?l"
    by (simp add: write_fails_def scenario_def search_directory_def)
  have c3: "list_all2 (group_ok write_fails) [?g1] [?out1]"
    by (simp add: group_ok_def write_fails_def scenario_def metadata_def entries_def
        output_path_def)
  have h3: "map (open_dataset write_fails) [?rain] = map Inr [([''precip''], [7])] \<and>
      concat_along write_fails [([''precip''], [7])] ''time'' = Inr ([''precip''], [7]) \<and>
      to_netcdf write_fails ([''precip''], [7])
        (output_path ''rainB'' (metadata write_fails [?rain] [([''precip''], [7])]))
        = Some ''PermissionError''"
    by (simp add: write_fails_def scenario_def metadata_def entries_def output_path_def)
  note t3 = failure_aborts_run [OF a3 split c3]
  have r3: "run write_fails = (Some ''PermissionError'',
      concat (map2 (group_events write_fails) [?g1] [?out1]) @ map Open [?rain])"
    by (rule t3 [THEN conjunct2, THEN conjunct2, THEN conjunct1, rule_format, OF h3])

  have p: "output_path ''tempA'' (metadata xr
        [''Base Climate Data/tempA_2020.nc'', ''Base Climate Data/tempA_2021.nc'']
        [([''temp''], [11, 12]), ([''temp''], [13])])
      = ''src/data/Processed Climate Data/combined_tempA_temp_data.nc''"
    if "data_vars xr = fst" for xr :: "(sample, string, string) library"
    using that by (simp add: metadata_def entries_def output_path_def)
  have p1: "data_vars open_fails = fst" "data_vars concat_fails = fst"
    "data_vars write_fails = fst"
    by (simp_all add: open_fails_def concat_fails_def write_fails_def scenario_def)
  show ?thesis
    unfolding r1 r2 r3
    by (simp add: w o p p1 written_map_Open opened_map_Open del: map_append)
qed

end
